theory Spec2Isabelle
  imports Complex_Main
begin

section \<open>Errors\<close>

text \<open>
  Every exception the embedded code can raise is a value. \<open>TypeError\<close> is the
  JavaScript runtime error of reading a property of \<open>undefined\<close> or calling a
  method that does not exist; \<open>RangeError\<close> is the exhausted call stack.
\<close>

datatype error =
    AlreadyVotedForTeamError
  | AlreadyVotedForQuestError
  | TypeError
  | RangeError
  | IllegalTransition

section \<open>Vote\<close>

text \<open>
  Modelled from the spec: the class \<open>Vote\<close> (\<open>./vote\<close>) is imported by
  \<open>quest.ts\<close> but its file is not among the sources. The spec gives it as the
  immutable pair \<open>{ username: string, value: boolean }\<close> with the accessors
  \<open>getUsername\<close>, \<open>getValue\<close> and a \<open>serialize\<close> that returns the same shape.
\<close>

datatype Vote = Vote (getUsername: string) (getValue: bool)

datatype VoteJson = VoteJson (json_username: string) (json_value: bool)

definition vote_serialize :: "Vote \<Rightarrow> VoteJson" where
  "vote_serialize vote = VoteJson (getUsername vote) (getValue vote)"

section \<open>Quest (\<open>quest.ts\<close>)\<close>

text \<open>
  The private fields of the class, without their leading underscore. JavaScript
  numbers are embedded as integers.
\<close>

record Quest =
  votesNeeded :: int
  failsNeeded :: int
  totalPlayers :: int
  teamVoteRounds :: "Vote list list"
  teamVotingRoundIndex :: int
  questVotes :: "Vote list"

text \<open>The constructor: the three configured numbers and the field initialisers.\<close>

definition new_Quest :: "int \<Rightarrow> int \<Rightarrow> int \<Rightarrow> Quest" where
  "new_Quest vn fn tp =
     \<lparr> votesNeeded = vn, failsNeeded = fn, totalPlayers = tp,
       teamVoteRounds = [[], [], [], [], []],
       teamVotingRoundIndex = 0,
       questVotes = [] \<rparr>"

text \<open>
  \<open>array[i]\<close> in JavaScript: \<open>undefined\<close> (here \<open>None\<close>) for an index below
  zero or beyond the end.
\<close>

definition js_index :: "'a list \<Rightarrow> int \<Rightarrow> 'a option" where
  "js_index xs i = (if 0 \<le> i \<and> i < int (length xs) then Some (xs ! nat i) else None)"

definition getCurrentTeamVotingRound :: "Quest \<Rightarrow> Vote list option" where
  "getCurrentTeamVotingRound q = js_index (teamVoteRounds q) (teamVotingRoundIndex q)"

definition getPreviousTeamVotingRound :: "Quest \<Rightarrow> Vote list option" where
  "getPreviousTeamVotingRound q = js_index (teamVoteRounds q) (teamVotingRoundIndex q - 1)"

definition everybodyVotedFor :: "Quest \<Rightarrow> Vote list \<Rightarrow> bool" where
  "everybodyVotedFor q rnd = (int (length rnd) = totalPlayers q)"

text \<open>
  The reducer shared by \<open>_failsCount\<close> and \<open>_majorityApproved\<close>:
  \<open>votes.reduce((acc, vote) => vote.getValue() ? acc : acc + 1, 0)\<close>.
\<close>

definition countFails :: "Vote list \<Rightarrow> int" where
  "countFails votes = foldl (\<lambda>acc vote. if getValue vote then acc else acc + 1) 0 votes"

definition failsCount :: "Quest \<Rightarrow> int" where
  "failsCount q = countFails (questVotes q)"

definition questVotingFailed :: "Quest \<Rightarrow> bool" where
  "questVotingFailed q = (failsCount q < failsNeeded q)"

text \<open>
  Reading \<open>.length\<close> of the current round raises a \<open>TypeError\<close> when the round
  index has left the array of rounds.
\<close>

definition majorityApproved :: "Quest \<Rightarrow> error + bool" where
  "majorityApproved q =
     (case getCurrentTeamVotingRound q of
        None \<Rightarrow> Inl TypeError
      | Some currentRound \<Rightarrow>
          Inr (countFails currentRound < \<lceil>real (length currentRound) / 2\<rceil>))"

definition teamVotingAllowed :: "Quest \<Rightarrow> error + bool" where
  "teamVotingAllowed q =
     (case getCurrentTeamVotingRound q of
        None \<Rightarrow> Inl TypeError
      | Some currentRound \<Rightarrow>
          if int (length currentRound) < totalPlayers q then Inr True
          else (case majorityApproved q of
                  Inl e \<Rightarrow> Inl e
                | Inr approved \<Rightarrow> Inr (\<not> approved)))"

definition teamVotingSucceeded :: "Quest \<Rightarrow> error + bool" where
  "teamVotingSucceeded q =
     (case teamVotingAllowed q of
        Inl e \<Rightarrow> Inl e
      | Inr allowed \<Rightarrow> if allowed then Inr False else majorityApproved q)"

definition questVotingAllowed :: "Quest \<Rightarrow> error + bool" where
  "questVotingAllowed q =
     (case teamVotingSucceeded q of
        Inl e \<Rightarrow> Inl e
      | Inr succeeded \<Rightarrow>
          if succeeded then Inr (int (length (questVotes q)) < votesNeeded q)
          else Inr False)"

definition questVotingFinished :: "Quest \<Rightarrow> bool" where
  "questVotingFinished q = (int (length (questVotes q)) = votesNeeded q)"

definition getStatus :: "Quest \<Rightarrow> error + int" where
  "getStatus q =
     (case teamVotingAllowed q of
        Inl e \<Rightarrow> Inl e
      | Inr teamAllowed \<Rightarrow>
          if teamAllowed then Inr (- 1)
          else (case questVotingAllowed q of
                  Inl e \<Rightarrow> Inl e
                | Inr questAllowed \<Rightarrow>
                    if questAllowed then Inr (- 1)
                    else Inr (if questVotingFailed q then 1 else 0)))"

definition isComplete :: "Quest \<Rightarrow> error + bool" where
  "isComplete q = (case getStatus q of Inl e \<Rightarrow> Inl e | Inr s \<Rightarrow> Inr (s \<noteq> - 1))"

definition alreadyVotedFor :: "Vote list \<Rightarrow> Vote \<Rightarrow> bool" where
  "alreadyVotedFor votes vote =
     (find (\<lambda>v. getUsername v = getUsername vote) votes \<noteq> None)"

text \<open>
  The mutating methods return the raised error, if any, together with the
  object as the call leaves it: the object outlives the exception.
  \<open>currentRound.push(vote)\<close> changes the round inside \<open>_teamVoteRounds\<close>.
\<close>

definition addVoteForTeam :: "Quest \<Rightarrow> Vote \<Rightarrow> error option \<times> Quest" where
  "addVoteForTeam q vote =
     (case getCurrentTeamVotingRound q of
        None \<Rightarrow> (Some TypeError, q)
      | Some currentRound \<Rightarrow>
          if alreadyVotedFor currentRound vote then (Some AlreadyVotedForTeamError, q)
          else
            let pushed = currentRound @ [vote];
                q1 = q\<lparr>teamVoteRounds :=
                        (teamVoteRounds q)[nat (teamVotingRoundIndex q) := pushed]\<rparr>
            in if everybodyVotedFor q1 pushed then
                 (case teamVotingSucceeded q1 of
                    Inl e \<Rightarrow> (Some e, q1)
                  | Inr succeeded \<Rightarrow>
                      if \<not> succeeded
                      then (None, q1\<lparr>teamVotingRoundIndex := teamVotingRoundIndex q1 + 1\<rparr>)
                      else (None, q1))
               else (None, q1))"

definition addVoteForQuest :: "Quest \<Rightarrow> Vote \<Rightarrow> error option \<times> Quest" where
  "addVoteForQuest q vote =
     (if alreadyVotedFor (questVotes q) vote then (Some AlreadyVotedForQuestError, q)
      else (None, q\<lparr>questVotes := questVotes q @ [vote]\<rparr>))"

definition addVote :: "Quest \<Rightarrow> Vote \<Rightarrow> error option \<times> Quest" where
  "addVote q vote =
     (case teamVotingAllowed q of
        Inl e \<Rightarrow> (Some e, q)
      | Inr allowed \<Rightarrow> if allowed then addVoteForTeam q vote else addVoteForQuest q vote)"

text \<open>
  A sequence of \<open>addVote\<close> calls on one object; a call that raises leaves the
  object to the next call.
\<close>

definition addVotes :: "Quest \<Rightarrow> Vote list \<Rightarrow> Quest" where
  "addVotes q votes = foldl (\<lambda>q' vote. snd (addVote q' vote)) q votes"

definition teamVotingRoundFinished :: "Quest \<Rightarrow> error + bool" where
  "teamVotingRoundFinished q =
     (case teamVotingSucceeded q of
        Inl e \<Rightarrow> Inl e
      | Inr succeeded \<Rightarrow>
          if succeeded then Inr True
          else (case getPreviousTeamVotingRound q of
                  None \<Rightarrow> Inr False
                | Some previousRound \<Rightarrow>
                    if everybodyVotedFor q previousRound then
                      (case getCurrentTeamVotingRound q of
                         None \<Rightarrow> Inl TypeError
                       | Some currentRound \<Rightarrow> Inr (length currentRound = 0))
                    else Inr False))"

definition isLastRoundOfTeamVoting :: "Quest \<Rightarrow> bool" where
  "isLastRoundOfTeamVoting q =
     (teamVotingRoundIndex q = int (length (teamVoteRounds q)) - 1)"

record QuestJson =
  json_failsNeeded :: int
  json_votesNeeded :: int
  json_teamVotes :: "VoteJson list"
  json_questVotes :: "VoteJson list"

definition serialize :: "Quest \<Rightarrow> error + QuestJson" where
  "serialize q =
     (case getCurrentTeamVotingRound q of
        None \<Rightarrow> Inl TypeError
      | Some currentRound \<Rightarrow>
          Inr \<lparr> json_failsNeeded = failsNeeded q,
                json_votesNeeded = votesNeeded q,
                json_teamVotes = map vote_serialize currentRound,
                json_questVotes = map vote_serialize (questVotes q) \<rparr>)"

text \<open>
  The vocabulary of the properties below: the approve and the reject votes of a
  collection of votes.
\<close>

definition approvals :: "Vote list \<Rightarrow> nat" where
  "approvals votes = length (filter getValue votes)"

definition rejections :: "Vote list \<Rightarrow> nat" where
  "rejections votes = length (filter (\<lambda>v. \<not> getValue v) votes)"

text \<open>
  What every quest built by the constructor for at least one player and changed
  by \<open>addVote\<close> alone satisfies: the round index never went below zero, the
  rounds after the current one are still empty, and the current round is either
  short of \<open>totalPlayers\<close> votes or holds exactly that many with a majority of
  approvals.
\<close>

definition quest_inv :: "Quest \<Rightarrow> bool" where
  "quest_inv q =
     (0 < totalPlayers q \<and> 0 \<le> teamVotingRoundIndex q \<and>
      (\<forall>j < length (teamVoteRounds q).
          nat (teamVotingRoundIndex q) < j \<longrightarrow> teamVoteRounds q ! j = []) \<and>
      (case getCurrentTeamVotingRound q of
         None \<Rightarrow> True
       | Some r \<Rightarrow> int (length r) < totalPlayers q \<or>
                   (int (length r) = totalPlayers q \<and> rejections r < approvals r)))"

section \<open>GameStateMachine (\<open>game-states/game-state-machine.ts\<close>)\<close>

datatype GameState =
    Preparation
  | TeamProposition
  | TeamVoting
  | TeamVotingPreApproved
  | QuestVoting
  | Assassination
  | Finish

text \<open>
  Modelled from the spec: \<open>TypeState.FiniteStateMachine\<close> comes from the package
  \<open>typestate\<close>, whose code is not among the sources. Following section 4.8 of the
  spec, \<open>from(a).to(b)\<close> adds the directed transition \<open>a \<rightarrow> b\<close> to the table, and
  \<open>go(state)\<close> moves to \<open>state\<close> when the table holds the transition from the
  current state and fails with \<open>IllegalTransition\<close> otherwise. \<open>on(state, cb)\<close>
  registers a listener; a listener is kept as the state it listens to and the
  game its closure captured.
\<close>

record 'g FiniteStateMachine =
  currentState :: GameState
  transitions :: "(GameState \<times> GameState) list"
  listeners :: "(GameState \<times> 'g) list"

definition new_FiniteStateMachine :: "GameState \<Rightarrow> 'g FiniteStateMachine" where
  "new_FiniteStateMachine s = \<lparr> currentState = s, transitions = [], listeners = [] \<rparr>"

definition from_to ::
  "GameState \<Rightarrow> GameState \<Rightarrow> 'g FiniteStateMachine \<Rightarrow> 'g FiniteStateMachine" where
  "from_to a b f = f\<lparr>transitions := transitions f @ [(a, b)]\<rparr>"

definition on :: "GameState \<Rightarrow> 'g \<Rightarrow> 'g FiniteStateMachine \<Rightarrow> 'g FiniteStateMachine" where
  "on s g f = f\<lparr>listeners := listeners f @ [(s, g)]\<rparr>"

definition go ::
  "'g FiniteStateMachine \<Rightarrow> GameState \<Rightarrow> error option \<times> 'g FiniteStateMachine" where
  "go f s =
     (if (currentState f, s) \<in> set (transitions f) then (None, f\<lparr>currentState := s\<rparr>)
      else (Some IllegalTransition, f))"

text \<open>
  The class itself. \<open>fsm\<close> and \<open>game\<close> are \<open>undefined\<close> until \<open>init\<close> has run.
  The promise of a timed transition is real time and is left out.
\<close>

record GameStateTransitionWaitTimes =
  afterTeamProposition :: int
  afterTeamVoting :: int
  afterQuestVoting :: int

record 'g GameStateMachine =
  isInit :: bool
  fsm :: "'g FiniteStateMachine option"
  game :: "'g option"
  waitTimes :: GameStateTransitionWaitTimes

text \<open>The constructor and the default value of its parameter.\<close>

definition default_waitTimes :: GameStateTransitionWaitTimes where
  "default_waitTimes =
     \<lparr> afterTeamProposition = 5000, afterTeamVoting = 5000, afterQuestVoting = 5000 \<rparr>"

definition new_GameStateMachine :: "GameStateTransitionWaitTimes \<Rightarrow> 'g GameStateMachine" where
  "new_GameStateMachine wt = \<lparr> isInit = False, fsm = None, game = None, waitTimes = wt \<rparr>"

definition initTransitions :: "'g GameStateMachine \<Rightarrow> 'g GameStateMachine" where
  "initTransitions m =
     (let f = new_FiniteStateMachine Preparation;
          f = from_to Preparation TeamProposition f;
          f = from_to TeamProposition TeamVoting f;
          f = from_to TeamProposition TeamVotingPreApproved f;
          f = from_to TeamVoting TeamProposition f;
          f = from_to TeamVoting QuestVoting f;
          f = from_to TeamVotingPreApproved QuestVoting f;
          f = from_to QuestVoting TeamProposition f;
          f = from_to QuestVoting Assassination f;
          f = from_to QuestVoting Finish f;
          f = from_to Assassination Finish f
      in m\<lparr>fsm := Some f\<rparr>)"

definition initTransitionListeners ::
  "'g \<Rightarrow> 'g GameStateMachine \<Rightarrow> error option \<times> 'g GameStateMachine" where
  "initTransitionListeners g m =
     (let m1 = m\<lparr>game := Some g\<rparr>
      in case fsm m1 of
           None \<Rightarrow> (Some TypeError, m1)
         | Some f \<Rightarrow>
             let f = on TeamProposition g f;
                 f = on TeamVoting g f;
                 f = on TeamVotingPreApproved g f;
                 f = on QuestVoting g f;
                 f = on Assassination g f;
                 f = on Finish g f
             in (None, m1\<lparr>fsm := Some f\<rparr>))"

definition init :: "'g \<Rightarrow> 'g GameStateMachine \<Rightarrow> error option \<times> 'g GameStateMachine" where
  "init g m =
     (if isInit m then (None, m)
      else initTransitionListeners g (initTransitions (m\<lparr>isInit := True\<rparr>)))"

definition transitionTo ::
  "'g GameStateMachine \<Rightarrow> GameState \<Rightarrow> error option \<times> 'g GameStateMachine" where
  "transitionTo m s =
     (case fsm m of
        None \<Rightarrow> (Some TypeError, m)
      | Some f \<Rightarrow>
          (case go f s of
             (Some e, f') \<Rightarrow> (Some e, m\<lparr>fsm := Some f'\<rparr>)
           | (None, f') \<Rightarrow> (None, m\<lparr>fsm := Some f'\<rparr>)))"

text \<open>A sequence of \<open>transitionTo\<close> calls on one machine.\<close>

definition transitionsTo :: "'g GameStateMachine \<Rightarrow> GameState list \<Rightarrow> 'g GameStateMachine" where
  "transitionsTo m path = foldl (\<lambda>m' s. snd (transitionTo m' s)) m path"

text \<open>The transitions that \<open>initTransitions\<close> registers, in its order.\<close>

definition transition_table :: "(GameState \<times> GameState) list" where
  "transition_table =
     [(Preparation, TeamProposition),
      (TeamProposition, TeamVoting), (TeamProposition, TeamVotingPreApproved),
      (TeamVoting, TeamProposition), (TeamVoting, QuestVoting),
      (TeamVotingPreApproved, QuestVoting),
      (QuestVoting, TeamProposition), (QuestVoting, Assassination), (QuestVoting, Finish),
      (Assassination, Finish)]"

section \<open>The snapshot constructor (\<open>GameState\<close> and \<open>_omitUselessFields\<close>)\<close>

text \<open>
  The values of an object graph that is a tree. An object is the list of its own
  enumerable fields in the order in which JavaScript enumerates them, each name
  once. \<open>JUndefined\<close> is also what a deleted array slot reads as. A number is a
  whole number. No field is taken to be renamed to \<open>__proto__\<close>, whose
  assignment would set the prototype and not a field.
\<close>

datatype jsval =
    JUndefined
  | JNull
  | JBool bool
  | JNumber int
  | JString string
  | JFunction
  | JPromise
  | JObject "(string \<times> jsval) list"
  | JArray "jsval list"

text \<open>The iteratee of the constructor: \<open>_.isFunction(val) || val instanceof Promise\<close>.\<close>

definition uselessField :: "jsval \<Rightarrow> bool" where
  "uselessField val = (val = JFunction \<or> val = JPromise)"

text \<open>\<open>_.isObject\<close>: objects, arrays, functions and promises, but not \<open>null\<close>.\<close>

fun isObject :: "jsval \<Rightarrow> bool" where
  "isObject (JObject _) = True"
| "isObject (JArray _) = True"
| "isObject JFunction = True"
| "isObject JPromise = True"
| "isObject _ = False"

text \<open>\<open>k.replace(/_/, '')\<close>: the pattern has no anchor and no \<open>g\<close> flag, so the
  first underscore of the name is removed, wherever it stands.\<close>

fun replace_underscore :: "string \<Rightarrow> string" where
  "replace_underscore [] = []"
| "replace_underscore (c # cs) = (if c = CHR ''_'' then cs else c # replace_underscore cs)"

text \<open>
  JavaScript enumerates the fields of an object with the array indices first,
  in ascending order, and the other names after them in the order of their
  creation. An array index is the decimal numeral, without a leading zero, of an
  integer below \<open>2^32 - 1\<close>.
\<close>

fun digit_value :: "char \<Rightarrow> int option" where
  "digit_value c = map_of
     [(CHR ''0'', 0), (CHR ''1'', 1), (CHR ''2'', 2), (CHR ''3'', 3), (CHR ''4'', 4),
      (CHR ''5'', 5), (CHR ''6'', 6), (CHR ''7'', 7), (CHR ''8'', 8), (CHR ''9'', 9)] c"

fun digits_value :: "int \<Rightarrow> string \<Rightarrow> int option" where
  "digits_value acc [] = Some acc"
| "digits_value acc (c # cs) =
     (case digit_value c of
        None \<Rightarrow> None
      | Some d \<Rightarrow> digits_value (10 * acc + d) cs)"

definition array_index :: "string \<Rightarrow> int option" where
  "array_index k =
     (case k of
        [] \<Rightarrow> None
      | c # cs \<Rightarrow>
          if c = CHR ''0'' \<and> cs \<noteq> [] then None
          else (case digits_value 0 k of
                  None \<Rightarrow> None
                | Some n \<Rightarrow> if n < 4294967295 then Some n else None))"

text \<open>
  Reading, deleting (\<open>_.unset\<close>) and assigning a field of an object. An
  assignment to an existing name keeps its place. A new name that is an array
  index goes to its place among the array indices; any other new name goes last.
\<close>

definition js_get :: "(string \<times> jsval) list \<Rightarrow> string \<Rightarrow> jsval" where
  "js_get obj k = (case map_of obj k of None \<Rightarrow> JUndefined | Some v \<Rightarrow> v)"

definition js_unset :: "(string \<times> jsval) list \<Rightarrow> string \<Rightarrow> (string \<times> jsval) list" where
  "js_unset obj k = filter (\<lambda>kv. fst kv \<noteq> k) obj"

fun js_insert :: "(string \<times> jsval) list \<Rightarrow> string \<Rightarrow> jsval \<Rightarrow> (string \<times> jsval) list" where
  "js_insert [] k v = [(k, v)]"
| "js_insert (kv # obj) k v =
     (case array_index k of
        None \<Rightarrow> kv # js_insert obj k v
      | Some i \<Rightarrow>
          (case array_index (fst kv) of
             None \<Rightarrow> (k, v) # kv # obj
           | Some j \<Rightarrow> if j < i then kv # js_insert obj k v else (k, v) # kv # obj))"

definition js_set :: "(string \<times> jsval) list \<Rightarrow> string \<Rightarrow> jsval \<Rightarrow> (string \<times> jsval) list" where
  "js_set obj k v =
     (if k \<in> fst ` set obj then map (\<lambda>kv. if fst kv = k then (k, v) else kv) obj
      else js_insert obj k v)"

text \<open>
  \<open>_.each\<close> over an object: the names are listed once, before the loop; each
  value is read when its turn comes, from the object as the earlier turns left
  it. \<open>rec\<close> is the recursive call of \<open>_omitUselessFields\<close>, which changes the
  value in place after it has been assigned to its new name.
\<close>

fun each_object ::
  "(jsval \<Rightarrow> error + jsval) \<Rightarrow> string list \<Rightarrow> (string \<times> jsval) list \<Rightarrow>
     error + (string \<times> jsval) list" where
  "each_object rec [] obj = Inr obj"
| "each_object rec (k # ks) obj =
     (let v = js_get obj k;
          obj1 = js_unset obj k
      in if uselessField v then each_object rec ks obj1
         else
           let obj2 = js_set obj1 (replace_underscore k) v
           in if isObject v then
                (case rec v of
                   Inl e \<Rightarrow> Inl e
                 | Inr v' \<Rightarrow> each_object rec ks (js_set obj2 (replace_underscore k) v'))
              else each_object rec ks obj2)"

text \<open>
  \<open>_.each\<close> over an array hands the callback the index as a number. The slot is
  deleted; for a value that is kept, \<open>k.replace\<close> is then called on a number,
  which has no such method: a \<open>TypeError\<close>.
\<close>

fun each_array :: "jsval list \<Rightarrow> error + jsval list" where
  "each_array [] = Inr []"
| "each_array (v # vs) =
     (if uselessField v then
        (case each_array vs of Inl e \<Rightarrow> Inl e | Inr vs' \<Rightarrow> Inr (JUndefined # vs'))
      else Inl TypeError)"

text \<open>
  \<open>_.each\<close> takes for an array every value that is array-like, and an object
  is array-like when its \<open>length\<close> is a number that is a whole number from 0
  to \<open>Number.MAX_SAFE_INTEGER\<close>. Such an object is walked by the indices below
  its \<open>length\<close>, read once before the loop, and not by its names; the callback
  gets the index as a number, as for an array.
\<close>

definition isArrayLike :: "(string \<times> jsval) list \<Rightarrow> nat option" where
  "isArrayLike obj =
     (case js_get obj ''length'' of
        JNumber n \<Rightarrow> if 0 \<le> n \<and> n \<le> 9007199254740991 then Some (nat n) else None
      | _ \<Rightarrow> None)"

text \<open>\<open>String(index)\<close>, the name under which an index is read and deleted.\<close>

fun digit_char :: "nat \<Rightarrow> char" where
  "digit_char d = ''0123456789'' ! d"

function index_key :: "nat \<Rightarrow> string" where
  "index_key n =
     (if n < 10 then [digit_char n] else index_key (n div 10) @ [digit_char (n mod 10)])"
  by pat_completeness auto
termination
  by (relation "measure id") auto

declare index_key.simps [simp del]

fun each_array_like ::
  "nat \<Rightarrow> nat \<Rightarrow> (string \<times> jsval) list \<Rightarrow> error + (string \<times> jsval) list" where
  "each_array_like 0 index obj = Inr obj"
| "each_array_like (Suc remaining) index obj =
     (let v = js_get obj (index_key index);
          obj1 = js_unset obj (index_key index)
      in if uselessField v then each_array_like remaining (Suc index) obj1
         else Inl TypeError)"

text \<open>
  \<open>_omitUselessFields(obj, iteratee)\<close> with the constructor's iteratee. The
  first argument is the depth of call stack that is left; the recursion follows
  the nesting of the graph and ends in a \<open>RangeError\<close> when the stack is used up.
\<close>

primrec omitUselessFields :: "nat \<Rightarrow> jsval \<Rightarrow> error + jsval" where
  "omitUselessFields 0 = (\<lambda>obj. Inl RangeError)"
| "omitUselessFields (Suc depth) = (\<lambda>obj.
     case obj of
       JObject props \<Rightarrow>
         (case (case isArrayLike props of
                  Some len \<Rightarrow> each_array_like len 0 props
                | None \<Rightarrow> each_object (omitUselessFields depth) (map fst props) props) of
            Inl e \<Rightarrow> Inl e
          | Inr props' \<Rightarrow> Inr (JObject props'))
     | JArray elements \<Rightarrow>
         (case each_array elements of
            Inl e \<Rightarrow> Inl e
          | Inr elements' \<Rightarrow> Inr (JArray elements'))
     | _ \<Rightarrow> Inr obj)"

text \<open>
  The constructor, given the own fields of the object it is to snapshot:
  \<open>_.cloneDeep\<close> and \<open>Object.assign\<close> copy the tree, \<open>_omitUselessFields\<close> then
  rewrites the copy.
\<close>

definition new_GameState :: "nat \<Rightarrow> (string \<times> jsval) list \<Rightarrow> error + jsval" where
  "new_GameState depth props = omitUselessFields depth (JObject props)"

section \<open>Counting votes\<close>



lemma foldl_countFails:
  "foldl (\<lambda>acc vote. if getValue vote then acc else acc + 1) a votes =
     a + int (length (filter (\<lambda>v. \<not> getValue v) votes))"
  by (induction votes arbitrary: a) auto

lemma countFails_filter:
  "countFails votes = int (length (filter (\<lambda>v. \<not> getValue v) votes))"
  by (simp add: countFails_def foldl_countFails)

lemma ceil_half: "\<lceil>real n / 2\<rceil> = (int n + 1) div 2"
  by linarith

lemma countFails_rejections: "countFails votes = int (rejections votes)"
  by (simp add: rejections_def countFails_filter)

lemma approvals_rejections: "approvals votes + rejections votes = length votes"
  by (simp add: approvals_def rejections_def sum_length_filter_compl)

lemma majority_iff:
  "(countFails votes < \<lceil>real (length votes) / 2\<rceil>) = (rejections votes < approvals votes)"
  using approvals_rejections [of votes]
  by (simp add: ceil_half countFails_rejections) linarith

lemma alreadyVotedFor_iff:
  "alreadyVotedFor votes vote = (getUsername vote \<in> getUsername ` set votes)"
  by (induction votes) (auto simp: alreadyVotedFor_def)

lemma teamVotingSucceeded_eq:
  "teamVotingSucceeded q =
     (case getCurrentTeamVotingRound q of
        None \<Rightarrow> Inl TypeError
      | Some r \<Rightarrow> Inr (totalPlayers q \<le> int (length r) \<and> rejections r < approvals r))"
  by (auto simp: teamVotingSucceeded_def teamVotingAllowed_def majorityApproved_def majority_iff
      split: option.splits)

lemma teamVotingAllowed_eq:
  "teamVotingAllowed q =
     (case getCurrentTeamVotingRound q of
        None \<Rightarrow> Inl TypeError
      | Some r \<Rightarrow> Inr (int (length r) < totalPlayers q \<or> \<not> rejections r < approvals r))"
  by (auto simp: teamVotingAllowed_def majorityApproved_def majority_iff
      split: option.splits)

lemma getCurrent_Some:
  "getCurrentTeamVotingRound q = Some r \<Longrightarrow>
     0 \<le> teamVotingRoundIndex q \<and> nat (teamVotingRoundIndex q) < length (teamVoteRounds q) \<and>
     r = teamVoteRounds q ! nat (teamVotingRoundIndex q)"
  by (auto simp: getCurrentTeamVotingRound_def js_index_def split: if_splits)

lemma getCurrent_push:
  "getCurrentTeamVotingRound q = Some r \<Longrightarrow>
     getCurrentTeamVotingRound
       (q\<lparr>teamVoteRounds := (teamVoteRounds q)[nat (teamVotingRoundIndex q) := r']\<rparr>) = Some r'"
  by (auto simp: getCurrentTeamVotingRound_def js_index_def split: if_splits)

text \<open>What addVote does, case by case.\<close>

lemma addVote_cases:
  "addVote q v =
     (case getCurrentTeamVotingRound q of
        None \<Rightarrow> (Some TypeError, q)
      | Some r \<Rightarrow>
          if int (length r) < totalPlayers q \<or> \<not> rejections r < approvals r then
            if getUsername v \<in> getUsername ` set r then (Some AlreadyVotedForTeamError, q)
            else if int (length r) + 1 = totalPlayers q \<and> \<not> rejections (r @ [v]) < approvals (r @ [v])
            then (None, q\<lparr>teamVoteRounds := (teamVoteRounds q)[nat (teamVotingRoundIndex q) := r @ [v]],
                          teamVotingRoundIndex := teamVotingRoundIndex q + 1\<rparr>)
            else (None, q\<lparr>teamVoteRounds := (teamVoteRounds q)[nat (teamVotingRoundIndex q) := r @ [v]]\<rparr>)
          else if getUsername v \<in> getUsername ` set (questVotes q) then (Some AlreadyVotedForQuestError, q)
          else (None, q\<lparr>questVotes := questVotes q @ [v]\<rparr>))"
proof (cases "getCurrentTeamVotingRound q")
  case None
  then show ?thesis by (simp add: addVote_def teamVotingAllowed_eq)
next
  case (Some r)
  let ?q1 = "q\<lparr>teamVoteRounds := (teamVoteRounds q)[nat (teamVotingRoundIndex q) := r @ [v]]\<rparr>"
  have cur1: "getCurrentTeamVotingRound ?q1 = Some (r @ [v])"
    using Some by (rule getCurrent_push)
  show ?thesis
    using Some cur1
    by (auto simp: addVote_def teamVotingAllowed_eq addVoteForTeam_def addVoteForQuest_def
        alreadyVotedFor_iff everybodyVotedFor_def teamVotingSucceeded_eq Let_def)
qed


text \<open>Evaluating a quest at a concrete input.\<close>

lemmas quest_eval =
  addVotes_def addVote_cases new_Quest_def getCurrentTeamVotingRound_def
  getPreviousTeamVotingRound_def js_index_def approvals_def rejections_def


section \<open>The quest invariant\<close>

lemma quest_inv_new: "0 < tp \<Longrightarrow> quest_inv (new_Quest vn fn tp)"
  by (auto simp: quest_inv_def new_Quest_def getCurrentTeamVotingRound_def js_index_def
      nth_Cons' less_Suc_eq)

lemma getCurrent_questVotes_update [simp]:
  "getCurrentTeamVotingRound (q\<lparr>questVotes := qv\<rparr>) = getCurrentTeamVotingRound q"
  by (simp add: getCurrentTeamVotingRound_def)

lemma quest_inv_questVotes_update:
  "quest_inv q \<Longrightarrow> quest_inv (q\<lparr>questVotes := qv\<rparr>)"
  by (simp add: quest_inv_def split: option.splits)

lemma quest_inv_push:
  assumes inv: "quest_inv q" and cur: "getCurrentTeamVotingRound q = Some r"
    and len: "int (length r) < totalPlayers q"
    and ok: "int (length r) + 1 = totalPlayers q \<longrightarrow> rejections (r @ [v]) < approvals (r @ [v])"
  shows "quest_inv (q\<lparr>teamVoteRounds := (teamVoteRounds q)[nat (teamVotingRoundIndex q) := r @ [v]]\<rparr>)"
proof -
  let ?q1 = "q\<lparr>teamVoteRounds := (teamVoteRounds q)[nat (teamVotingRoundIndex q) := r @ [v]]\<rparr>"
  have cur1: "getCurrentTeamVotingRound ?q1 = Some (r @ [v])"
    using cur by (rule getCurrent_push)
  have later: "\<forall>j < length (teamVoteRounds ?q1).
      nat (teamVotingRoundIndex ?q1) < j \<longrightarrow> teamVoteRounds ?q1 ! j = []"
    using inv by (simp add: quest_inv_def)
  have "int (length (r @ [v])) < totalPlayers q \<or>
        int (length (r @ [v])) = totalPlayers q \<and> rejections (r @ [v]) < approvals (r @ [v])"
    using len ok by auto
  with inv later cur1 show ?thesis
    unfolding quest_inv_def by simp
qed

lemma quest_inv_push_next:
  assumes inv: "quest_inv q" and cur: "getCurrentTeamVotingRound q = Some r"
  shows "quest_inv (q\<lparr>teamVoteRounds := (teamVoteRounds q)[nat (teamVotingRoundIndex q) := r'],
                      teamVotingRoundIndex := teamVotingRoundIndex q + 1\<rparr>)"
proof -
  let ?i = "nat (teamVotingRoundIndex q)"
  let ?q2 = "q\<lparr>teamVoteRounds := (teamVoteRounds q)[?i := r'],
                teamVotingRoundIndex := teamVotingRoundIndex q + 1\<rparr>"
  note c = getCurrent_Some [OF cur]
  have idx: "nat (teamVotingRoundIndex q + 1) = Suc ?i"
    using c by (simp add: nat_add_distrib)
  have later: "\<forall>j < length (teamVoteRounds q). ?i < j \<longrightarrow> teamVoteRounds q ! j = []"
    using inv by (simp add: quest_inv_def)
  have next_cur: "getCurrentTeamVotingRound ?q2 = None \<or> getCurrentTeamVotingRound ?q2 = Some []"
    using c later by (auto simp: getCurrentTeamVotingRound_def js_index_def idx)
  have later2: "\<forall>j < length (teamVoteRounds ?q2).
      nat (teamVotingRoundIndex ?q2) < j \<longrightarrow> teamVoteRounds ?q2 ! j = []"
    using later by (simp add: idx)
  have pos: "0 < totalPlayers q" "0 \<le> teamVotingRoundIndex q"
    using inv by (simp_all add: quest_inv_def)
  from next_cur show ?thesis
  proof
    assume "getCurrentTeamVotingRound ?q2 = None"
    with later2 pos show ?thesis unfolding quest_inv_def by simp
  next
    assume "getCurrentTeamVotingRound ?q2 = Some []"
    with later2 pos show ?thesis unfolding quest_inv_def by simp
  qed
qed

lemma quest_inv_addVote:
  assumes inv: "quest_inv q"
  shows "quest_inv (snd (addVote q v))"
proof (cases "getCurrentTeamVotingRound q")
  case None
  then show ?thesis using inv by (simp add: addVote_cases)
next
  case (Some r)
  have shape: "int (length r) < totalPlayers q \<or>
      (int (length r) = totalPlayers q \<and> rejections r < approvals r)"
    using inv Some by (simp add: quest_inv_def)
  show ?thesis
  proof (cases "int (length r) < totalPlayers q")
    case True
    then show ?thesis
      using Some inv quest_inv_push [OF inv Some True, of v]
        quest_inv_push_next [OF inv Some, of "r @ [v]"]
      by (simp add: addVote_cases)
  next
    case False
    with shape have "rejections r < approvals r" by simp
    with False Some inv show ?thesis
      by (simp add: addVote_cases quest_inv_questVotes_update)
  qed
qed

lemma quest_inv_addVotes: "quest_inv q \<Longrightarrow> quest_inv (addVotes q votes)"
  unfolding addVotes_def
  by (induction votes arbitrary: q) (simp_all add: quest_inv_addVote)


section \<open>Quest status\<close>




section \<open>Team voting\<close>

text \<open>
  C2, as stated, fails: the code asks for at least \<open>totalPlayers\<close> votes, not
  for exactly that many. On a quest built for no player, one approve vote makes
  \<open>teamVotingSucceeded()\<close> return true on a round of one vote.
\<close>

theorem teamVotingSucceeded_counterexample:
  "teamVotingSucceeded (snd (addVote (new_Quest 1 1 0) (Vote ''a'' True))) = Inr True \<and>
   getCurrentTeamVotingRound (snd (addVote (new_Quest 1 1 0) (Vote ''a'' True)))
     = Some [Vote ''a'' True] \<and>
   int (length [Vote ''a'' True]) = 1 \<and>
   totalPlayers (snd (addVote (new_Quest 1 1 0) (Vote ''a'' True))) = 0"
  by (simp add: quest_eval teamVotingSucceeded_eq)

text \<open>
  C2, amended. On every quest built by the constructor for at least one player
  and changed by any sequence of \<open>addVote\<close> calls, \<open>teamVotingSucceeded()\<close>
  returns true if and only if the current team-voting round holds exactly
  \<open>totalPlayers\<close> votes and the approve votes strictly outnumber the reject
  votes, so that a tie rejects. Where the round index has left the five rounds
  there is no current round and the call raises.
\<close>

theorem teamVotingSucceeded_iff:
  assumes "0 < tp" and "q = addVotes (new_Quest vn fn tp) votes"
  shows "teamVotingSucceeded q =
     (case getCurrentTeamVotingRound q of
        None \<Rightarrow> Inl TypeError
      | Some currentRound \<Rightarrow>
          Inr (int (length currentRound) = totalPlayers q \<and>
               rejections currentRound < approvals currentRound))"
proof -
  have "quest_inv q"
    using assms by (simp add: quest_inv_new quest_inv_addVotes)
  then show ?thesis
    by (auto simp: teamVotingSucceeded_eq quest_inv_def split: option.splits)
qed

theorem teamVotingSucceeded_iff_witness:
  "(0::int) < 3 \<and>
   teamVotingSucceeded
     (addVotes (new_Quest 2 1 3) [Vote ''a'' True, Vote ''b'' False, Vote ''c'' True]) = Inr True"
proof -
  let ?q = "addVotes (new_Quest 2 1 3) [Vote ''a'' True, Vote ''b'' False, Vote ''c'' True]"
  have tp: "(0::int) < 3" by simp
  have q: "?q = \<lparr>votesNeeded = 2, failsNeeded = 1, totalPlayers = 3,
      teamVoteRounds = [[Vote ''a'' True, Vote ''b'' False, Vote ''c'' True], [], [], [], []],
      teamVotingRoundIndex = 0, questVotes = []\<rparr>"
    by (simp add: quest_eval)
  from teamVotingSucceeded_iff [OF tp refl, of 2 1 "[Vote ''a'' True, Vote ''b'' False, Vote ''c'' True]"]
  show ?thesis
    unfolding q by (simp add: getCurrentTeamVotingRound_def js_index_def approvals_def rejections_def)
qed


text \<open>
  C3, as stated, fails: after the single player of a one-player quest approves
  the team, the current round is complete and approved, not rejected, yet
  \<open>teamVotingRoundFinished()\<close> returns true; and the round index is still 0.
\<close>

theorem teamVotingRoundFinished_counterexample:
  "teamVotingRoundFinished (snd (addVote (new_Quest 1 1 1) (Vote ''a'' True))) = Inr True \<and>
   getCurrentTeamVotingRound (snd (addVote (new_Quest 1 1 1) (Vote ''a'' True))) = Some [Vote ''a'' True] \<and>
   totalPlayers (snd (addVote (new_Quest 1 1 1) (Vote ''a'' True))) = 1 \<and>
   rejections [Vote ''a'' True] = 0 \<and> approvals [Vote ''a'' True] = 1 \<and>
   teamVotingRoundIndex (snd (addVote (new_Quest 1 1 1) (Vote ''a'' True))) = 0"
  by (simp add: addVote_cases new_Quest_def getCurrentTeamVotingRound_def js_index_def
      approvals_def rejections_def teamVotingRoundFinished_def teamVotingSucceeded_eq)


text \<open>
  C3, amended. \<open>teamVotingRoundFinished()\<close> returns true exactly when the team
  voting succeeded (the current round is complete and approved), or when the
  previous round holds \<open>totalPlayers\<close> votes and the current round is still
  empty. It is a query and assigns nothing. The round index is advanced by
  \<open>addVote\<close>: by one, exactly when the vote is accepted during team voting,
  brings the current round to \<open>totalPlayers\<close> votes, and leaves it without a
  majority of approvals; otherwise \<open>addVote\<close> leaves the index as it was.
\<close>

theorem teamVotingRoundFinished_iff:
  "(teamVotingRoundFinished q = Inr True \<longleftrightarrow>
      teamVotingSucceeded q = Inr True \<or>
      (teamVotingSucceeded q = Inr False \<and>
       (case getPreviousTeamVotingRound q of
          None \<Rightarrow> False
        | Some previousRound \<Rightarrow> int (length previousRound) = totalPlayers q) \<and>
       getCurrentTeamVotingRound q = Some [])) \<and>
   teamVotingRoundIndex (snd (addVote q v)) =
     (case getCurrentTeamVotingRound q of
        None \<Rightarrow> teamVotingRoundIndex q
      | Some currentRound \<Rightarrow>
          if teamVotingAllowed q = Inr True \<and>
             getUsername v \<notin> getUsername ` set currentRound \<and>
             int (length currentRound) + 1 = totalPlayers q \<and>
             approvals (currentRound @ [v]) \<le> rejections (currentRound @ [v])
          then teamVotingRoundIndex q + 1 else teamVotingRoundIndex q)"
proof
  show "teamVotingRoundFinished q = Inr True \<longleftrightarrow>
      teamVotingSucceeded q = Inr True \<or>
      (teamVotingSucceeded q = Inr False \<and>
       (case getPreviousTeamVotingRound q of
          None \<Rightarrow> False
        | Some previousRound \<Rightarrow> int (length previousRound) = totalPlayers q) \<and>
       getCurrentTeamVotingRound q = Some [])"
    by (auto simp: teamVotingRoundFinished_def everybodyVotedFor_def teamVotingSucceeded_eq
        split: sum.splits option.splits if_splits)
next
  show "teamVotingRoundIndex (snd (addVote q v)) =
     (case getCurrentTeamVotingRound q of
        None \<Rightarrow> teamVotingRoundIndex q
      | Some currentRound \<Rightarrow>
          if teamVotingAllowed q = Inr True \<and>
             getUsername v \<notin> getUsername ` set currentRound \<and>
             int (length currentRound) + 1 = totalPlayers q \<and>
             approvals (currentRound @ [v]) \<le> rejections (currentRound @ [v])
          then teamVotingRoundIndex q + 1 else teamVotingRoundIndex q)"
  proof (cases "getCurrentTeamVotingRound q")
    case None
    then show ?thesis by (simp add: addVote_cases)
  next
    case (Some r)
    let ?q1 = "q\<lparr>teamVoteRounds := (teamVoteRounds q)[nat (teamVotingRoundIndex q) := r @ [v]]\<rparr>"
    have cur1: "getCurrentTeamVotingRound ?q1 = Some (r @ [v])"
      using Some by (rule getCurrent_push)
    show ?thesis
      using Some cur1
      by (auto simp: addVote_cases teamVotingAllowed_eq)
  qed
qed

theorem teamVotingRoundFinished_iff_witness:
  "teamVotingRoundFinished (addVotes (new_Quest 1 1 2) [Vote ''a'' False, Vote ''b'' True]) = Inr True \<and>
   teamVotingSucceeded (addVotes (new_Quest 1 1 2) [Vote ''a'' False, Vote ''b'' True]) = Inr False \<and>
   teamVotingRoundIndex (addVotes (new_Quest 1 1 2) [Vote ''a'' False, Vote ''b'' True]) = 1 \<and>
   teamVotingRoundIndex (addVotes (new_Quest 1 1 2) [Vote ''a'' False]) = 0"
proof -
  let ?q1 = "addVotes (new_Quest 1 1 2) [Vote ''a'' False]"
  let ?q = "addVotes (new_Quest 1 1 2) [Vote ''a'' False, Vote ''b'' True]"
  have q1: "?q1 = \<lparr>votesNeeded = 1, failsNeeded = 1, totalPlayers = 2,
      teamVoteRounds = [[Vote ''a'' False], [], [], [], []],
      teamVotingRoundIndex = 0, questVotes = []\<rparr>"
    by (simp add: quest_eval)
  have step: "?q = snd (addVote ?q1 (Vote ''b'' True))"
    by (simp add: addVotes_def)
  have q: "?q = \<lparr>votesNeeded = 1, failsNeeded = 1, totalPlayers = 2,
      teamVoteRounds = [[Vote ''a'' False, Vote ''b'' True], [], [], [], []],
      teamVotingRoundIndex = 1, questVotes = []\<rparr>"
    by (simp add: quest_eval)
  have s: "teamVotingSucceeded ?q = Inr False"
    unfolding q by (simp add: teamVotingSucceeded_eq quest_eval)
  have p: "getPreviousTeamVotingRound ?q = Some [Vote ''a'' False, Vote ''b'' True]"
    "getCurrentTeamVotingRound ?q = Some []" "totalPlayers ?q = 2"
    unfolding q by (simp_all add: quest_eval)
  have c1: "getCurrentTeamVotingRound ?q1 = Some [Vote ''a'' False]"
    "teamVotingAllowed ?q1 = Inr True" "totalPlayers ?q1 = 2" "teamVotingRoundIndex ?q1 = 0"
    unfolding q1 by (simp_all add: teamVotingAllowed_eq quest_eval)
  from teamVotingRoundFinished_iff [of ?q "Vote ''c'' True"]
  have fin: "teamVotingRoundFinished ?q = Inr True"
    using s p by simp
  from teamVotingRoundFinished_iff [of ?q1 "Vote ''b'' True"]
  have idx: "teamVotingRoundIndex ?q = 1"
    unfolding step using c1 by (simp add: approvals_def rejections_def)
  show ?thesis using fin s idx c1 by simp
qed


section \<open>Quest votes\<close>

lemma isComplete_eq:
  "isComplete q =
     (case getCurrentTeamVotingRound q of
        None \<Rightarrow> Inl TypeError
      | Some r \<Rightarrow>
          Inr (\<not> (int (length r) < totalPlayers q \<or> \<not> rejections r < approvals r) \<and>
               \<not> int (length (questVotes q)) < votesNeeded q))"
  by (auto simp: isComplete_def getStatus_def teamVotingAllowed_eq questVotingAllowed_def
      teamVotingSucceeded_eq split: option.splits)

lemma questVotes_bound_step:
  assumes "int (length (questVotes q)) \<le> votesNeeded q" and "isComplete q \<noteq> Inr True"
  shows "int (length (questVotes (snd (addVote q v)))) \<le> votesNeeded (snd (addVote q v))"
  using assms
  by (auto simp: addVote_cases isComplete_eq split: option.splits)

lemma votesNeeded_addVote [simp]: "votesNeeded (snd (addVote q v)) = votesNeeded q"
  by (simp add: addVote_cases split: option.splits)

lemma votesNeeded_addVotes [simp]: "votesNeeded (addVotes q votes) = votesNeeded q"
  unfolding addVotes_def by (induction votes arbitrary: q) simp_all

lemma addVotes_snoc: "addVotes q (votes @ [v]) = snd (addVote (addVotes q votes) v)"
  by (simp add: addVotes_def)

lemma getStatus_eq:
  "getStatus q =
     (case getCurrentTeamVotingRound q of
        None \<Rightarrow> Inl TypeError
      | Some r \<Rightarrow>
          if int (length r) < totalPlayers q \<or> \<not> rejections r < approvals r then Inr (- 1)
          else if int (length (questVotes q)) < votesNeeded q then Inr (- 1)
          else Inr (if int (rejections (questVotes q)) < failsNeeded q then 1 else 0))"
  by (auto simp: getStatus_def teamVotingAllowed_eq questVotingAllowed_def
      teamVotingSucceeded_eq questVotingFailed_def failsCount_def countFails_rejections
      split: option.splits)

text \<open>
  C4, as stated, fails: \<open>_addVoteForQuest\<close> does not look at \<open>votesNeeded\<close>.
  On a one-player quest that needs one quest vote, a third \<open>addVote\<close> from a new
  username is pushed as a second quest vote.
\<close>

theorem questVotes_bound_counterexample:
  "length (questVotes (addVotes (new_Quest 1 1 1)
      [Vote ''a'' True, Vote ''a'' True, Vote ''b'' True])) = 2 \<and>
   votesNeeded (addVotes (new_Quest 1 1 1)
      [Vote ''a'' True, Vote ''a'' True, Vote ''b'' True]) = 1"
  by (simp add: quest_eval)


text \<open>
  C4, amended. For every quest built by the constructor with \<open>votesNeeded\<close> not
  below zero, and every sequence of \<open>addVote\<close> calls each of which is made while
  the quest is not complete (\<open>isComplete()\<close> is not true before the call),
  \<open>questVotes.length \<le> votesNeeded\<close> holds after the calls.
\<close>

theorem questVotes_bound_in_progress:
  assumes "0 \<le> vn"
    and "\<forall>k < length votes. isComplete (addVotes (new_Quest vn fn tp) (take k votes)) \<noteq> Inr True"
  shows "int (length (questVotes (addVotes (new_Quest vn fn tp) votes))) \<le> vn"
  using assms(2)
proof (induction votes rule: rev_induct)
  case Nil
  show ?case using assms(1) by (simp add: addVotes_def new_Quest_def)
next
  case (snoc v votes)
  let ?q = "addVotes (new_Quest vn fn tp) votes"
  have "\<forall>k < length votes. isComplete (addVotes (new_Quest vn fn tp) (take k votes)) \<noteq> Inr True"
  proof (intro allI impI)
    fix k assume "k < length votes"
    with snoc.prems [rule_format, of k] show "isComplete (addVotes (new_Quest vn fn tp) (take k votes)) \<noteq> Inr True"
      by simp
  qed
  then have ih: "int (length (questVotes ?q)) \<le> vn" by (rule snoc.IH)
  have open_q: "isComplete ?q \<noteq> Inr True"
    using snoc.prems [rule_format, of "length votes"] by simp
  have vn: "votesNeeded ?q = vn" by (simp add: new_Quest_def)
  from questVotes_bound_step [of ?q v] ih open_q vn
  show ?case by (simp add: addVotes_snoc)
qed

theorem questVotes_bound_in_progress_witness:
  "(0::int) \<le> 1 \<and>
   isComplete (addVotes (new_Quest 1 1 1) []) = Inr False \<and>
   isComplete (addVotes (new_Quest 1 1 1) [Vote ''a'' True]) = Inr False \<and>
   int (length (questVotes (addVotes (new_Quest 1 1 1) [Vote ''a'' True, Vote ''a'' True]))) \<le> 1"
proof -
  let ?votes = "[Vote ''a'' True, Vote ''a'' True]"
  have c0: "isComplete (addVotes (new_Quest 1 1 1) []) = Inr False"
    by (simp add: isComplete_eq quest_eval)
  have c1: "isComplete (addVotes (new_Quest 1 1 1) [Vote ''a'' True]) = Inr False"
    by (simp add: isComplete_eq quest_eval)
  have h: "\<forall>k < length ?votes. isComplete (addVotes (new_Quest 1 1 1) (take k ?votes)) \<noteq> Inr True"
    using c0 c1 by (simp add: less_Suc_eq)
  have vn: "(0::int) \<le> 1" by simp
  from questVotes_bound_in_progress [OF vn h] c0 c1 show ?thesis by simp
qed


text \<open>
  C5, as stated, fails: a quest that has succeeded (status 1) takes a further
  vote from a new username; a reject vote then brings the count of fails to
  \<open>failsNeeded\<close> and the status turns to 0.
\<close>

theorem getStatus_terminal_counterexample:
  "getStatus (addVotes (new_Quest 1 1 1) [Vote ''a'' True, Vote ''a'' True]) = Inr 1 \<and>
   getStatus (snd (addVote (addVotes (new_Quest 1 1 1) [Vote ''a'' True, Vote ''a'' True])
                      (Vote ''b'' False))) = Inr 0"
  by (simp add: quest_eval getStatus_def teamVotingAllowed_eq questVotingAllowed_def
      teamVotingSucceeded_eq questVotingFailed_def failsCount_def countFails_rejections)


text \<open>
  C5, amended. Once \<open>getStatus()\<close> has returned 0 or 1, it returns 0 or 1
  after every further \<open>addVote\<close> call. A status 0 never changes. A status 1 is
  kept by every approve vote and by every vote of a username already among the
  quest votes; it becomes 0 exactly when a reject vote of a new username brings
  the number of reject votes to \<open>failsNeeded\<close>.
\<close>

theorem getStatus_terminal_after_addVote:
  assumes "getStatus q = Inr s" and "s = 0 \<or> s = 1"
  shows "getStatus (snd (addVote q v)) =
     Inr (if s = 1 \<and> \<not> getValue v \<and> getUsername v \<notin> getUsername ` set (questVotes q) \<and>
             failsNeeded q \<le> int (rejections (questVotes q)) + 1
          then 0 else s)"
proof (cases "getCurrentTeamVotingRound q")
  case None
  with assms show ?thesis by (simp add: getStatus_eq)
next
  case (Some r)
  have rej: "rejections (questVotes q @ [v]) = rejections (questVotes q) + (if getValue v then 0 else 1)"
    by (simp add: rejections_def)
  from assms Some show ?thesis
    by (auto simp: getStatus_eq addVote_cases rej split: if_splits)
qed

theorem getStatus_terminal_after_addVote_witness:
  "getStatus (addVotes (new_Quest 1 1 1) [Vote ''a'' True, Vote ''a'' True]) = Inr 1 \<and>
   getStatus (snd (addVote (addVotes (new_Quest 1 1 1) [Vote ''a'' True, Vote ''a'' True])
                      (Vote ''b'' True))) = Inr 1"
proof -
  let ?q = "addVotes (new_Quest 1 1 1) [Vote ''a'' True, Vote ''a'' True]"
  have st: "getStatus ?q = Inr 1"
    by (simp add: getStatus_eq quest_eval)
  have "(1::int) = 0 \<or> (1::int) = 1" by simp
  from getStatus_terminal_after_addVote [OF st this, of "Vote ''b'' True"] st
  show ?thesis by simp
qed


text \<open>
  C6. \<open>addVote(vote)\<close> raises \<open>AlreadyVotedForTeamError\<close> if and only if team
  voting is allowed and a vote with the same username is in the current
  team-voting round; it raises \<open>AlreadyVotedForQuestError\<close> if and only if team
  voting is not allowed and a vote with the same username is among the quest
  votes. Whenever \<open>addVote\<close> raises, the quest is left as it was.
\<close>

theorem addVote_already_voted:
  "(fst (addVote q v) = Some AlreadyVotedForTeamError \<longleftrightarrow>
      teamVotingAllowed q = Inr True \<and>
      (case getCurrentTeamVotingRound q of
         None \<Rightarrow> False
       | Some currentRound \<Rightarrow> getUsername v \<in> getUsername ` set currentRound)) \<and>
   (fst (addVote q v) = Some AlreadyVotedForQuestError \<longleftrightarrow>
      teamVotingAllowed q = Inr False \<and> getUsername v \<in> getUsername ` set (questVotes q)) \<and>
   (fst (addVote q v) \<noteq> None \<longrightarrow> snd (addVote q v) = q)"
  by (auto simp: addVote_cases teamVotingAllowed_eq split: option.splits)

theorem addVote_already_voted_witness:
  "fst (addVote (snd (addVote (new_Quest 2 1 5) (Vote ''a'' True))) (Vote ''a'' False))
     = Some AlreadyVotedForTeamError \<and>
   snd (addVote (snd (addVote (new_Quest 2 1 5) (Vote ''a'' True))) (Vote ''a'' False))
     = snd (addVote (new_Quest 2 1 5) (Vote ''a'' True))"
proof -
  let ?q = "snd (addVote (new_Quest 2 1 5) (Vote ''a'' True))"
  have q: "?q = \<lparr>votesNeeded = 2, failsNeeded = 1, totalPlayers = 5,
      teamVoteRounds = [[Vote ''a'' True], [], [], [], []],
      teamVotingRoundIndex = 0, questVotes = []\<rparr>"
    by (simp add: quest_eval)
  have a: "teamVotingAllowed ?q = Inr True"
    unfolding q by (simp add: teamVotingAllowed_eq quest_eval)
  have c: "getCurrentTeamVotingRound ?q = Some [Vote ''a'' True]"
    unfolding q by (simp add: quest_eval)
  from addVote_already_voted [of ?q "Vote ''a'' False"] a c
  show ?thesis by simp
qed


section \<open>Quest serialisation\<close>

text \<open>
  C9, as stated, fails: after five team-voting rounds have been rejected, which
  \<open>addVote\<close> alone brings about on a quest of five players, the round index is
  5, there is no current round, and \<open>serialize()\<close> raises a \<open>TypeError\<close>
  instead of returning an object.
\<close>

theorem serialize_counterexample:
  "serialize (addVotes (new_Quest 2 1 5)
     [Vote ''u1'' False, Vote ''u2'' False, Vote ''u3'' False, Vote ''u4'' True, Vote ''u5'' True,
      Vote ''u1'' False, Vote ''u2'' False, Vote ''u3'' False, Vote ''u4'' True, Vote ''u5'' True,
      Vote ''u1'' False, Vote ''u2'' False, Vote ''u3'' False, Vote ''u4'' True, Vote ''u5'' True,
      Vote ''u1'' False, Vote ''u2'' False, Vote ''u3'' False, Vote ''u4'' True, Vote ''u5'' True,
      Vote ''u1'' False, Vote ''u2'' False, Vote ''u3'' False, Vote ''u4'' True, Vote ''u5'' True])
     = Inl TypeError \<and>
   teamVotingRoundIndex (addVotes (new_Quest 2 1 5)
     [Vote ''u1'' False, Vote ''u2'' False, Vote ''u3'' False, Vote ''u4'' True, Vote ''u5'' True,
      Vote ''u1'' False, Vote ''u2'' False, Vote ''u3'' False, Vote ''u4'' True, Vote ''u5'' True,
      Vote ''u1'' False, Vote ''u2'' False, Vote ''u3'' False, Vote ''u4'' True, Vote ''u5'' True,
      Vote ''u1'' False, Vote ''u2'' False, Vote ''u3'' False, Vote ''u4'' True, Vote ''u5'' True,
      Vote ''u1'' False, Vote ''u2'' False, Vote ''u3'' False, Vote ''u4'' True, Vote ''u5'' True])
     = 5"
  by (simp add: quest_eval serialize_def)

text \<open>
  C9, amended. For every quest that has a current team-voting round,
  \<open>serialize()\<close> returns the object of exactly four fields: \<open>failsNeeded\<close>,
  \<open>votesNeeded\<close>, the serialised votes of the current round and the serialised
  quest votes. The votes of any other round are not in it: replacing the content
  of another round leaves the result the same.
\<close>

theorem serialize_current_round_only:
  assumes "getCurrentTeamVotingRound q = Some currentRound"
  shows "serialize q =
      Inr \<lparr> json_failsNeeded = failsNeeded q, json_votesNeeded = votesNeeded q,
            json_teamVotes = map vote_serialize currentRound,
            json_questVotes = map vote_serialize (questVotes q) \<rparr> \<and>
     (j \<noteq> nat (teamVotingRoundIndex q) \<longrightarrow>
        serialize (q\<lparr>teamVoteRounds := (teamVoteRounds q)[j := earlier]\<rparr>) = serialize q)"
  using assms getCurrent_Some [OF assms]
  by (auto simp: serialize_def getCurrentTeamVotingRound_def js_index_def)

theorem serialize_current_round_only_witness:
  "getCurrentTeamVotingRound (addVotes (new_Quest 1 1 1) [Vote ''a'' False]) = Some [] \<and>
   teamVoteRounds (addVotes (new_Quest 1 1 1) [Vote ''a'' False]) ! 0 = [Vote ''a'' False] \<and>
   serialize (addVotes (new_Quest 1 1 1) [Vote ''a'' False]) =
     Inr \<lparr> json_failsNeeded = 1, json_votesNeeded = 1, json_teamVotes = [],
           json_questVotes = [] \<rparr> \<and>
   serialize ((addVotes (new_Quest 1 1 1) [Vote ''a'' False])
                \<lparr>teamVoteRounds :=
                   (teamVoteRounds (addVotes (new_Quest 1 1 1) [Vote ''a'' False]))[0 := []]\<rparr>) =
     serialize (addVotes (new_Quest 1 1 1) [Vote ''a'' False])"
proof -
  let ?q = "addVotes (new_Quest 1 1 1) [Vote ''a'' False]"
  have q: "?q = \<lparr>votesNeeded = 1, failsNeeded = 1, totalPlayers = 1,
      teamVoteRounds = [[Vote ''a'' False], [], [], [], []],
      teamVotingRoundIndex = 1, questVotes = []\<rparr>"
    by (simp add: quest_eval)
  have c: "getCurrentTeamVotingRound ?q = Some []"
    unfolding q by (simp add: quest_eval)
  have f: "failsNeeded ?q = 1" "votesNeeded ?q = 1" "questVotes ?q = []"
    "teamVotingRoundIndex ?q = 1" "teamVoteRounds ?q ! 0 = [Vote ''a'' False]"
    unfolding q by simp_all
  from serialize_current_round_only [OF c, of 0 "[]"] c f
  show ?thesis by simp
qed


section \<open>The game state machine\<close>

lemma init_no_error: "fst (init g m) = None"
  by (simp add: init_def initTransitionListeners_def initTransitions_def Let_def)

lemma init_isInit: "isInit (snd (init g m))"
  by (simp add: init_def initTransitionListeners_def initTransitions_def Let_def)

lemma isInit_transitionTo: "isInit (snd (transitionTo m s)) = isInit m"
  by (simp add: transitionTo_def go_def split: option.splits)

lemma isInit_transitionsTo: "isInit (transitionsTo m path) = isInit m"
  unfolding transitionsTo_def
  by (induction path arbitrary: m) (simp_all add: isInit_transitionTo)


lemma init_registers:
  "\<exists>f. fsm (snd (init g (new_GameStateMachine wt))) = Some f \<and>
       length (transitions f) = 10 \<and> length (listeners f) = 6"
  by (simp add: init_def initTransitionListeners_def initTransitions_def Let_def
      new_GameStateMachine_def new_FiniteStateMachine_def from_to_def on_def)

lemma init_new_fsm:
  "\<exists>f. fsm (snd (init g (new_GameStateMachine wt))) = Some f \<and> transitions f = transition_table"
  by (simp add: init_def initTransitionListeners_def initTransitions_def Let_def
      new_GameStateMachine_def new_FiniteStateMachine_def from_to_def on_def transition_table_def)

lemma transitionTo_fsm:
  assumes "fsm m = Some f"
  shows "\<exists>f'. fsm (snd (transitionTo m s)) = Some f' \<and> transitions f' = transitions f"
  using assms by (simp add: transitionTo_def go_def)

lemma transitionsTo_fsm:
  assumes "fsm m = Some f"
  shows "\<exists>f'. fsm (transitionsTo m path) = Some f' \<and> transitions f' = transitions f"
  using assms unfolding transitionsTo_def
proof (induction path arbitrary: m f)
  case Nil
  then show ?case by simp
next
  case (Cons s path)
  from transitionTo_fsm [OF Cons.prems, of s] obtain f1
    where f1: "fsm (snd (transitionTo m s)) = Some f1" "transitions f1 = transitions f"
    by blast
  from Cons.IH [OF f1(1)] f1(2) show ?case by simp
qed

text \<open>Every state of the game is the current state after some sequence of calls.\<close>

lemma every_state_reachable:
  "\<exists>path f. fsm (transitionsTo (snd (init g (new_GameStateMachine wt))) path) = Some f \<and>
      currentState f = s"
proof -
  let ?m = "snd (init g (new_GameStateMachine wt)) :: 'a GameStateMachine"
  have run: "map_option currentState (fsm (transitionsTo ?m path)) = Some s
      \<Longrightarrow> \<exists>path f. fsm (transitionsTo ?m path) = Some f \<and> currentState f = s" for path
    by (cases "fsm (transitionsTo ?m path)") auto
  note ev = transitionsTo_def transitionTo_def go_def init_def initTransitionListeners_def
    initTransitions_def Let_def new_GameStateMachine_def new_FiniteStateMachine_def
    from_to_def on_def
  show ?thesis
  proof (cases s)
    case Preparation
    show ?thesis by (rule run [of "[]"]) (simp add: ev Preparation)
  next
    case TeamProposition
    show ?thesis by (rule run [of "[TeamProposition]"]) (simp add: ev TeamProposition)
  next
    case TeamVoting
    show ?thesis
      by (rule run [of "[TeamProposition, TeamVoting]"]) (simp add: ev TeamVoting)
  next
    case TeamVotingPreApproved
    show ?thesis
      by (rule run [of "[TeamProposition, TeamVotingPreApproved]"])
        (simp add: ev TeamVotingPreApproved)
  next
    case QuestVoting
    show ?thesis
      by (rule run [of "[TeamProposition, TeamVoting, QuestVoting]"]) (simp add: ev QuestVoting)
  next
    case Assassination
    show ?thesis
      by (rule run [of "[TeamProposition, TeamVoting, QuestVoting, Assassination]"])
        (simp add: ev Assassination)
  next
    case Finish
    show ?thesis
      by (rule run [of "[TeamProposition, TeamVoting, QuestVoting, Finish]"])
        (simp add: ev Finish)
  qed
qed

text \<open>
  C7. On the machine that \<open>init\<close> sets up, after any sequence of
  \<open>transitionTo\<close> calls, \<open>transitionTo(state)\<close> moves to \<open>state\<close> exactly when
  the pair of the current state and \<open>state\<close> is one of the ten transitions
  Preparation to TeamProposition, TeamProposition to TeamVoting or
  TeamVotingPreApproved, TeamVoting to TeamProposition or QuestVoting,
  TeamVotingPreApproved to QuestVoting, QuestVoting to TeamProposition,
  Assassination or Finish, and Assassination to Finish; every other \<open>go\<close> fails
  with \<open>IllegalTransition\<close> and leaves the machine as it was.
\<close>

theorem transitions_permitted:
  assumes "m = transitionsTo (snd (init g (new_GameStateMachine wt))) path"
  shows "\<exists>f. fsm m = Some f \<and>
     transitionTo m s =
       (if (currentState f, s) \<in>
             {(Preparation, TeamProposition),
              (TeamProposition, TeamVoting), (TeamProposition, TeamVotingPreApproved),
              (TeamVoting, TeamProposition), (TeamVoting, QuestVoting),
              (TeamVotingPreApproved, QuestVoting),
              (QuestVoting, TeamProposition), (QuestVoting, Assassination),
              (QuestVoting, Finish),
              (Assassination, Finish)}
        then (None, m\<lparr>fsm := Some (f\<lparr>currentState := s\<rparr>)\<rparr>)
        else (Some IllegalTransition, m))"
proof -
  from init_new_fsm [of g wt] obtain f0
    where "fsm (snd (init g (new_GameStateMachine wt))) = Some f0" "transitions f0 = transition_table"
    by blast
  with transitionsTo_fsm [of "snd (init g (new_GameStateMachine wt))" f0 path] assms
  obtain f where f: "fsm m = Some f" "transitions f = transition_table"
    by auto
  have "m\<lparr>fsm := Some f\<rparr> = m" using f(1) by simp
  then show ?thesis
    using f by (auto simp: transitionTo_def go_def transition_table_def)
qed

theorem transitions_permitted_witness:
  "transitionTo (transitionsTo (snd (init (0::nat) (new_GameStateMachine default_waitTimes)))
       [TeamProposition, TeamVoting]) Finish =
     (Some IllegalTransition,
      transitionsTo (snd (init (0::nat) (new_GameStateMachine default_waitTimes))) [TeamProposition, TeamVoting]) \<and>
   fst (transitionTo (transitionsTo (snd (init (0::nat) (new_GameStateMachine default_waitTimes)))
       [TeamProposition, TeamVoting]) QuestVoting) = None"
proof -
  let ?m = "transitionsTo (snd (init (0::nat) (new_GameStateMachine default_waitTimes))) [TeamProposition, TeamVoting]"
  have cur: "map_option currentState (fsm ?m) = Some TeamVoting"
    by (simp add: transitionsTo_def transitionTo_def go_def init_def initTransitionListeners_def
        initTransitions_def Let_def new_GameStateMachine_def new_FiniteStateMachine_def
        from_to_def on_def)
  from transitions_permitted [OF refl, of 0 default_waitTimes "[TeamProposition, TeamVoting]" Finish]
  obtain f where f: "fsm ?m = Some f"
    and fin: "transitionTo ?m Finish =
       (if (currentState f, Finish) \<in>
             {(Preparation, TeamProposition),
              (TeamProposition, TeamVoting), (TeamProposition, TeamVotingPreApproved),
              (TeamVoting, TeamProposition), (TeamVoting, QuestVoting),
              (TeamVotingPreApproved, QuestVoting),
              (QuestVoting, TeamProposition), (QuestVoting, Assassination),
              (QuestVoting, Finish),
              (Assassination, Finish)}
        then (None, ?m\<lparr>fsm := Some (f\<lparr>currentState := Finish\<rparr>)\<rparr>)
        else (Some IllegalTransition, ?m))"
    by blast
  from transitions_permitted [OF refl, of 0 default_waitTimes "[TeamProposition, TeamVoting]" QuestVoting]
  obtain f' where f': "fsm ?m = Some f'"
    and qv: "transitionTo ?m QuestVoting =
       (if (currentState f', QuestVoting) \<in>
             {(Preparation, TeamProposition),
              (TeamProposition, TeamVoting), (TeamProposition, TeamVotingPreApproved),
              (TeamVoting, TeamProposition), (TeamVoting, QuestVoting),
              (TeamVotingPreApproved, QuestVoting),
              (QuestVoting, TeamProposition), (QuestVoting, Assassination),
              (QuestVoting, Finish),
              (Assassination, Finish)}
        then (None, ?m\<lparr>fsm := Some (f'\<lparr>currentState := QuestVoting\<rparr>)\<rparr>)
        else (Some IllegalTransition, ?m))"
    by blast
  have "currentState f = TeamVoting" "currentState f' = TeamVoting"
    using cur f f' by simp_all
  with fin qv show ?thesis by simp
qed

text \<open>
  C10. \<open>init\<close> is idempotent: a call that follows a first call, with whatever
  game, returns without raising and leaves the whole machine unchanged, its
  transitions and listeners included; so does a call made after any sequence of
  transitions.
\<close>

theorem init_idempotent:
  "init g' (snd (init g m)) = (None, snd (init g m)) \<and>
   init g' (transitionsTo (snd (init g m)) path) = (None, transitionsTo (snd (init g m)) path)"
  using init_isInit [of g m] isInit_transitionsTo [of "snd (init g m)" path]
  by (simp add: init_def [of g'])

section \<open>The snapshot\<close>

text \<open>
  A snapshot that works: the function and the promise are left out, the names
  lose their underscore, the inner object is rewritten by the same rules and the
  empty array is kept.
\<close>

lemma snapshot_of_a_plain_object:
  "new_GameState 10
     [(''_id'', JString ''g1''), (''_onChange'', JFunction),
      (''_playersManager'', JObject [(''_players'', JArray []), (''_pending'', JPromise)])]
     = Inr (JObject [(''id'', JString ''g1''),
                     (''playersManager'', JObject [(''players'', JArray [])])])"
  by (simp add: new_GameState_def eval_nat_numeral js_get_def js_unset_def js_set_def
      isArrayLike_def array_index_def uselessField_def)


text \<open>
  C8. The claim says that arrays are recursed into with the rules of objects
  and that only a leading underscore is stripped from a field name. The code
  raises a \<open>TypeError\<close> at the first array element it keeps, and removes the
  first underscore of a name also when it is not leading.
\<close>

theorem snapshot_failing_inputs:
  "new_GameState 10
     [(''_playersManager'', JObject [(''_players'', JArray [JObject [(''_username'', JString ''user-1'')]])])]
     = Inl TypeError \<and>
   new_GameState 10 [(''is_leader'', JBool True)] = Inr (JObject [(''isleader'', JBool True)])"
  by (simp add: new_GameState_def eval_nat_numeral js_get_def js_unset_def js_set_def
      isArrayLike_def array_index_def uselessField_def)

end
